theory Spec2Isabelle
  imports Complex_Main
begin

section \<open>Numbers, errors and the canvas\<close>

text \<open>
  The module \<^verbatim>\<open>pdf.py\<close> computes page geometry with Python numbers. Lengths are
  modelled as reals, pixel sizes of images as naturals, and every exception the code can
  raise as a value of \<open>error\<close>. Arithmetic is exact where a statement is an equation
  between the code's own expressions; where a statement bounds a computed size, the
  rounding of the code's doubles is made explicit (\<open>wrap_fl\<close>).
\<close>

datatype error =
    IOError string
  | ZeroDivisionError
  | TypeError
  | ValueError

definition bind_err :: "error + 'a \<Rightarrow> ('a \<Rightarrow> error + 'b) \<Rightarrow> error + 'b" where
  "bind_err m f = (case m of Inl e \<Rightarrow> Inl e | Inr x \<Rightarrow> f x)"

text \<open>\<^verbatim>\<open>reportlab.lib.units\<close>: \<^verbatim>\<open>inch = 72.0\<close>, \<^verbatim>\<open>cm = inch / 2.54\<close>.\<close>

definition inch :: real where
  "inch = 72"

definition cm :: real where
  "cm = inch / 2.54"

text \<open>
  \<^verbatim>\<open>ImageReader(path).getSize()\<close>: the file system is a function from paths to the
  pixel size of the image stored there, \<open>None\<close> where the file is missing, unreadable or
  corrupt; the reader raises there.
\<close>

type_synonym files = "string \<Rightarrow> (nat \<times> nat) option"

definition ImageReader :: "files \<Rightarrow> string \<Rightarrow> error + (nat \<times> nat)" where
  "ImageReader fs p = (case fs p of None \<Rightarrow> Inl (IOError p) | Some sz \<Rightarrow> Inr sz)"

text \<open>The calls on the canvas that the module makes, in the order they are made.\<close>

datatype canvas_op =
    saveState
  | restoreState
  | setFont string real
  | drawCentredString real real string
  | drawString real real string
  | drawRightString real real string
  | drawImage string real real real real

section \<open>The flowable \<^verbatim>\<open>CenteredImage\<close>\<close>

record CenteredImage =
  path :: string
  draw_w :: "real option"
  draw_h :: "real option"
  scale :: "real option"
  fit :: bool
  priv_dw :: "real option"
  priv_dh :: "real option"
  availW :: "real option"
  availH :: "real option"

text \<open>\<^verbatim>\<open>__init__(self, path, draw_w=None, draw_h=None, scale=None, fit=False)\<close>\<close>

definition init_CenteredImage ::
  "string \<Rightarrow> real option \<Rightarrow> real option \<Rightarrow> real option \<Rightarrow> bool \<Rightarrow> CenteredImage" where
  "init_CenteredImage p w h s f =
     \<lparr>path = p, draw_w = w, draw_h = h, scale = s, fit = f,
      priv_dw = None, priv_dh = None, availW = None, availH = None\<rparr>"

text \<open>Python's truth value of an optional number: \<^verbatim>\<open>None\<close> and zero are false.\<close>

definition truthy :: "real option \<Rightarrow> bool" where
  "truthy v = (case v of None \<Rightarrow> False | Some x \<Rightarrow> x \<noteq> 0)"

text \<open>
  Lines 58 to 70 of \<^verbatim>\<open>wrap\<close>: the draw size from the hints. A division by a zero
  pixel size raises.
\<close>

definition hint_size :: "CenteredImage \<Rightarrow> nat \<Rightarrow> nat \<Rightarrow> error + (real \<times> real)" where
  "hint_size ci iw ih =
     (case scale ci of
        Some s \<Rightarrow> Inr (real iw * s, real ih * s)
      | None \<Rightarrow>
          if truthy (draw_w ci) \<and> truthy (draw_h ci) then
            (if iw = 0 \<or> ih = 0 then Inl ZeroDivisionError
             else let r = min (the (draw_w ci) / real iw) (the (draw_h ci) / real ih)
                  in Inr (real iw * r, real ih * r))
          else if truthy (draw_w ci) then
            (if iw = 0 then Inl ZeroDivisionError
             else let r = the (draw_w ci) / real iw
                  in Inr (real iw * r, real ih * r))
          else if truthy (draw_h ci) then
            (if ih = 0 then Inl ZeroDivisionError
             else let r = the (draw_h ci) / real ih
                  in Inr (real iw * r, real ih * r))
          else Inr (real iw, real ih))"

text \<open>
  Lines 72 to 74 of \<^verbatim>\<open>wrap\<close>: the extra ratio of the fit flag, in exact arithmetic.
  The version that rounds as the doubles of the code do is \<open>rfit_fl\<close> below; bounds on the
  size after the fit step are stated on that one.
\<close>

definition rfit :: "real \<Rightarrow> real \<Rightarrow> real \<Rightarrow> real \<Rightarrow> real" where
  "rfit availWidth availHeight dw dh = min (min (availWidth / dw) (availHeight / dh)) 1"

definition fit_size :: "bool \<Rightarrow> real \<Rightarrow> real \<Rightarrow> real \<times> real \<Rightarrow> error + (real \<times> real)" where
  "fit_size f availWidth availHeight sz =
     (case sz of (dw, dh) \<Rightarrow>
        if f then
          (if dw = 0 \<or> dh = 0 then Inl ZeroDivisionError
           else Inr (dw * rfit availWidth availHeight dw dh,
                     dh * rfit availWidth availHeight dw dh))
        else Inr (dw, dh))"

text \<open>
  \<^verbatim>\<open>wrap(self, availWidth, availHeight)\<close> returns the updated object and the size it
  claims from the frame.
\<close>

definition wrap ::
  "files \<Rightarrow> CenteredImage \<Rightarrow> real \<Rightarrow> real \<Rightarrow> error + (CenteredImage \<times> (real \<times> real))" where
  "wrap fs ci availWidth availHeight =
     bind_err (ImageReader fs (path ci)) (\<lambda>(iw, ih).
     bind_err (hint_size ci iw ih) (\<lambda>sz.
     bind_err (fit_size (fit ci) availWidth availHeight sz) (\<lambda>(dw, dh).
       Inr (ci\<lparr>priv_dw := Some dw, priv_dh := Some dh,
                availW := Some availWidth, availH := Some availHeight\<rparr>,
            (availWidth, availHeight)))))"

text \<open>
  \<^verbatim>\<open>draw(self)\<close>: the arithmetic on a field that is still \<^verbatim>\<open>None\<close> raises
  \<^verbatim>\<open>TypeError\<close>.
\<close>

definition draw :: "CenteredImage \<Rightarrow> error + canvas_op list" where
  "draw ci =
     (case (availW ci, priv_dw ci, availH ci, priv_dh ci) of
        (Some aw, Some dw, Some ah, Some dh) \<Rightarrow>
          (let x = (aw - dw) / 2 - 1 * cm;
               y = (ah - dh) / 2
           in Inr [drawImage (path ci) x y dw dh])
      | _ \<Rightarrow> Inl TypeError)"

subsection \<open>The same lines with rounding\<close>






section \<open>Python's number formatting\<close>

text \<open>\<^verbatim>\<open>str(n)\<close> for a non-negative integer: its decimal digits.\<close>

definition digit_char :: "nat \<Rightarrow> char" where
  "digit_char d =
     (if d = 0 then CHR ''0'' else if d = 1 then CHR ''1'' else if d = 2 then CHR ''2''
      else if d = 3 then CHR ''3'' else if d = 4 then CHR ''4'' else if d = 5 then CHR ''5''
      else if d = 6 then CHR ''6'' else if d = 7 then CHR ''7'' else if d = 8 then CHR ''8''
      else CHR ''9'')"

fun str_nat :: "nat \<Rightarrow> string" where
  "str_nat n = (if n < 10 then [digit_char n] else str_nat (n div 10) @ [digit_char (n mod 10)])"

declare str_nat.simps [simp del]

text \<open>The f-string \<^verbatim>\<open>f"{n}"\<close> of an integer.\<close>

definition str_int :: "int \<Rightarrow> string" where
  "str_int n = (if n < 0 then CHR ''-'' # str_nat (nat (- n)) else str_nat (nat n))"

text \<open>
  The format specification \<^verbatim>\<open>","\<close>: the digits are grouped in threes from the
  right, with a comma between groups. \<open>group3\<close> works on the digits in reverse order.
\<close>

fun group3 :: "string \<Rightarrow> string" where
  "group3 (a # b # c # d # ds) = a # b # c # CHR '','' # group3 (d # ds)"
| "group3 ds = ds"

definition format_comma :: "int \<Rightarrow> string" where
  "format_comma n =
     (if n < 0 then CHR ''-'' # rev (group3 (rev (str_nat (nat (- n)))))
      else rev (group3 (rev (str_nat (nat n)))))"

text \<open>\<^verbatim>\<open>s.replace(a, b)\<close> for one-character strings \<open>a\<close> and \<open>b\<close>.\<close>

definition replace_char :: "char \<Rightarrow> char \<Rightarrow> string \<Rightarrow> string" where
  "replace_char a b s = map (\<lambda>c. if c = a then b else c) s"

text \<open>Line 138: \<^verbatim>\<open>f"{int(total_visitors):,}".replace(",", ".")\<close>.\<close>

definition vis_str :: "int \<Rightarrow> string" where
  "vis_str total_visitors = replace_char (CHR '','') (CHR ''.'') (format_comma total_visitors)"

section \<open>Drawing functions\<close>

text \<open>
  A drawing function receives the document's page size and page index (\<^verbatim>\<open>doc.pagesize\<close>,
  \<^verbatim>\<open>doc.page\<close>) and returns the calls it makes on the canvas, or the exception that
  leaves it. \<^verbatim>\<open>draw_image_page\<close> is called nowhere in the repository and is left out.
\<close>

text \<open>Line 109 of \<^verbatim>\<open>draw_cover\<close>.\<close>

definition text_y :: "real \<Rightarrow> real \<Rightarrow> real" where
  "text_y text_from_bottom_cm height =
     max (1.0 * cm) (min (text_from_bottom_cm * cm) (height - 1.5 * cm))"

definition draw_cover ::
  "files \<Rightarrow> real \<times> real \<Rightarrow> string \<Rightarrow> string \<Rightarrow> real \<Rightarrow> real \<Rightarrow> error + canvas_op list" where
  "draw_cover fs pagesize image_path file_name image_offset_cm text_from_bottom_cm =
     (case pagesize of (width, height) \<Rightarrow>
        bind_err (ImageReader fs image_path) (\<lambda>(iw, ih).
          if iw = 0 \<or> ih = 0 then Inl ZeroDivisionError
          else
            let max_w = width * 1.2;
                max_h = height * 0.9;
                sc = min (max_w / real iw) (max_h / real ih);
                dw = real iw * sc;
                dh = real ih * sc;
                image_y = (height - dh) / 2 + (image_offset_cm * cm);
                image_x = (width - dw) / 2
            in Inr [saveState,
                    drawImage image_path image_x image_y dw dh,
                    setFont ''Raleway-Bold'' 28,
                    drawCentredString (width / 2) (text_y text_from_bottom_cm height) file_name,
                    restoreState]))"

text \<open>
  Lines 127 to 134 of \<^verbatim>\<open>draw_common_elements\<close>: the body of the \<^verbatim>\<open>try\<close>
  statement that draws the logo.
\<close>

definition try_logo :: "files \<Rightarrow> real \<Rightarrow> real \<Rightarrow> error + canvas_op list" where
  "try_logo fs width height =
     bind_err (ImageReader fs ''resources/water.png'') (\<lambda>(iw, ih).
       if ih = 0 then Inl ZeroDivisionError
       else
         let target_h = 1.2 * cm;
             sc = target_h / real ih;
             dw = real iw * sc;
             dh = real ih * sc;
             x = width - 2 * cm - dw;
             y = height - 1.2 * cm - (dh * 0.5)
         in Inr [drawImage ''resources/water.png'' x y dw dh])"

text \<open>Lines 126 to 136: \<^verbatim>\<open>try: ... except Exception: pass\<close>.\<close>

definition draw_logo :: "files \<Rightarrow> real \<Rightarrow> real \<Rightarrow> canvas_op list" where
  "draw_logo fs width height =
     (case try_logo fs width height of Inl e \<Rightarrow> [] | Inr ops \<Rightarrow> ops)"

text \<open>
  \<^verbatim>\<open>canvas.stringWidth(text, font, size)\<close> is the font's metric, a parameter \<open>sw\<close>.
  \<open>total_visitors\<close> is the integer that \<^verbatim>\<open>int(total_visitors)\<close> gives. Outside the
  \<^verbatim>\<open>try\<close> statement nothing in \<^verbatim>\<open>draw_common_elements\<close> raises, so its result is the
  list of calls.
\<close>

type_synonym metrics = "string \<Rightarrow> string \<Rightarrow> real \<Rightarrow> real"

definition draw_common_elements ::
  "metrics \<Rightarrow> files \<Rightarrow> real \<times> real \<Rightarrow> nat \<Rightarrow> string \<Rightarrow> int \<Rightarrow> string \<Rightarrow> canvas_op list" where
  "draw_common_elements sw fs pagesize page file_name total_visitors title =
     (case pagesize of (width, height) \<Rightarrow>
        let off = sw ''Fecha:'' ''Raleway-Bold'' 10 + 4;
            label = ''Visitantes totales:'';
            lw = sw label ''Raleway-Bold'' 10;
            vw = sw (vis_str total_visitors) ''Raleway'' 10;
            start_x = (width - (lw + vw + 4)) / 2;
            shown_page = int page - 1
        in [saveState,
            setFont ''Raleway-Bold'' 14,
            drawCentredString (width / 2) (height - 1.2 * cm) title,
            setFont ''Raleway-Bold'' 10,
            drawString (2 * cm) (height - 1.2 * cm) ''Fecha:'',
            setFont ''Raleway'' 10,
            drawString (2 * cm + off) (height - 1.2 * cm) file_name]
           @ draw_logo fs width height
           @ [setFont ''Raleway-Bold'' 10,
              drawString start_x (1.2 * cm) label,
              setFont ''Raleway'' 10,
              drawString (start_x + lw + 4) (1.2 * cm) (vis_str total_visitors),
              drawRightString (width - 2 * cm) (1.2 * cm) (str_int shown_page),
              restoreState])"

section \<open>Generation of the document\<close>

text \<open>
  \<^verbatim>\<open>reportlab.lib.pagesizes\<close>: \<^verbatim>\<open>A4 = (210*mm, 297*mm)\<close> with \<^verbatim>\<open>mm = cm * 0.1\<close>, and
  \<^verbatim>\<open>landscape\<close> puts the longer side first.
\<close>

definition mm :: real where
  "mm = cm * 0.1"

definition A4 :: "real \<times> real" where
  "A4 = (210 * mm, 297 * mm)"

definition landscape :: "real \<times> real \<Rightarrow> real \<times> real" where
  "landscape pagesize = (case pagesize of (a, b) \<Rightarrow> if a < b then (b, a) else (a, b))"

text \<open>\<^verbatim>\<open>Frame(x1, y1, width, height, id)\<close>; the padding is the library's default of 6 points.\<close>

record Frame =
  frame_x1 :: real
  frame_y1 :: real
  frame_width :: real
  frame_height :: real
  frame_id :: string
  frame_padding :: real

definition init_Frame :: "real \<Rightarrow> real \<Rightarrow> real \<Rightarrow> real \<Rightarrow> string \<Rightarrow> Frame" where
  "init_Frame x y w h i =
     \<lparr>frame_x1 = x, frame_y1 = y, frame_width = w, frame_height = h, frame_id = i,
      frame_padding = 6\<rparr>"

text \<open>
  \<^verbatim>\<open>PageTemplate(id, frames, onPage)\<close>: the callback receives the document's page size
  and page index.
\<close>

record PageTemplate =
  tpl_id :: string
  frames :: "Frame list"
  onPage :: "real \<times> real \<Rightarrow> nat \<Rightarrow> error + canvas_op list"

text \<open>
  \<^verbatim>\<open>BaseDocTemplate(output_path, pagesize, pageTemplates, margins)\<close>: the frames are
  given with the templates, so the margins take no part in the layout, and the file name
  is where the finished pages go.
\<close>

record BaseDocTemplate =
  pagesize :: "real \<times> real"
  pageTemplates :: "PageTemplate list"

datatype flowable =
    Paragraph string
  | NextPageTemplate string
  | PageBreak
  | Flow_CenteredImage CenteredImage

text \<open>Lines 204 to 208 of \<^verbatim>\<open>build_pdf\<close>: the loop over \<^verbatim>\<open>enumerate(page_images)\<close>.\<close>

fun image_story :: "nat \<Rightarrow> nat \<Rightarrow> string list \<Rightarrow> flowable list" where
  "image_story n i [] = []"
| "image_story n i (p # ps) =
     Flow_CenteredImage (init_CenteredImage p (Some (26 * cm)) None None False)
       # (if int i < int n - 1 then [PageBreak] else [])
       @ image_story n (Suc i) ps"

text \<open>Lines 199 to 208: the story. An absent or empty \<^verbatim>\<open>page_images\<close> adds nothing.\<close>

definition story :: "string list option \<Rightarrow> flowable list" where
  "story page_images =
     [Paragraph '' '', NextPageTemplate ''BODY'', PageBreak]
       @ (case page_images of
            None \<Rightarrow> []
          | Some imgs \<Rightarrow> if imgs = [] then [] else image_story (length imgs) 0 imgs)"

subsection \<open>The document engine\<close>

text \<open>
  Modelled from the spec: what the engine has put on a page (the engine is the page-layout
  library's, not part of the repository).
\<close>

datatype placed =
    Placed_Paragraph string
  | Placed_Image "canvas_op list"

text \<open>
  Modelled from the spec: a page of the output, with its index, the template it was laid
  out with, what the template's callback drew on the canvas, and the flowables placed in
  its frame.
\<close>

record page =
  number :: nat
  template :: string
  decorations :: "canvas_op list"
  content :: "placed list"

text \<open>
  Modelled from the spec: the engine's state, with the finished pages, the open page, the
  current template, the template a directive has selected for the next page, and the page
  index (\<^verbatim>\<open>doc.page\<close>).
\<close>

record build_state =
  finished :: "page list"
  current :: "page option"
  pageTemplate :: PageTemplate
  nextTemplate :: "PageTemplate option"
  page_no :: nat

text \<open>
  Modelled from the spec: the document engine (\<^verbatim>\<open>BaseDocTemplate.build\<close> of the page-layout
  library), which \<^verbatim>\<open>build_pdf\<close> calls and which is not part of the repository. The engine
  keeps a page index that starts at 1 on the cover, calls the current template's callback
  once when a page begins, places each flowable of the story in the frame of the open
  page, ends the page at a page break, and lets a next-template directive take effect
  at the page that follows. A page begins only when a flowable is handled, so a story that
  ends in a page break is not followed by an empty page. An exception raised by a callback
  or by a flowable leaves the build. Heights are not tracked: every flowable is taken to
  fit the frame of the page that is open when the engine reaches it.
\<close>

definition handle_pageBegin :: "BaseDocTemplate \<Rightarrow> build_state \<Rightarrow> error + build_state" where
  "handle_pageBegin d st =
     (case current st of
        Some pg \<Rightarrow> Inr st
      | None \<Rightarrow>
          let n = page_no st + 1;
              t = pageTemplate st
          in bind_err (onPage t (pagesize d) n) (\<lambda>ops.
               Inr (st\<lparr>current := Some \<lparr>number = n, template = tpl_id t,
                                          decorations = ops, content = []\<rparr>,
                        page_no := n\<rparr>)))"

text \<open>
  Modelled from the spec: the end of a page. The open page is finished and a selected next
  template becomes the current one.
\<close>

definition handle_pageEnd :: "build_state \<Rightarrow> build_state" where
  "handle_pageEnd st =
     (case current st of
        None \<Rightarrow> st
      | Some pg \<Rightarrow>
          st\<lparr>finished := finished st @ [pg],
             current := None,
             pageTemplate := (case nextTemplate st of None \<Rightarrow> pageTemplate st | Some t \<Rightarrow> t),
             nextTemplate := None\<rparr>)"

text \<open>Modelled from the spec: a flowable is placed in the frame of the open page.\<close>

definition add_placed :: "placed \<Rightarrow> build_state \<Rightarrow> error + build_state" where
  "add_placed x st =
     (case current st of
        None \<Rightarrow> Inl ValueError
      | Some pg \<Rightarrow> Inr (st\<lparr>current := Some (pg\<lparr>content := content pg @ [x]\<rparr>)\<rparr>))"

text \<open>
  Modelled from the spec: the area a frame offers, its width and height less the padding
  on both sides.
\<close>

definition frame_avail :: "Frame \<Rightarrow> real \<times> real" where
  "frame_avail f =
     (frame_width f - 2 * frame_padding f, frame_height f - 2 * frame_padding f)"

text \<open>
  Modelled from the spec: one flowable of the story. An image flowable is wrapped with the
  area of the current template's frame and then drawn.
\<close>

definition handle_flowable ::
  "files \<Rightarrow> BaseDocTemplate \<Rightarrow> build_state \<Rightarrow> flowable \<Rightarrow> error + build_state" where
  "handle_flowable fs d st f =
     (case f of
        Paragraph s \<Rightarrow> add_placed (Placed_Paragraph s) st
      | NextPageTemplate i \<Rightarrow>
          (case find (\<lambda>t. tpl_id t = i) (pageTemplates d) of
             None \<Rightarrow> Inl ValueError
           | Some t \<Rightarrow> Inr (st\<lparr>nextTemplate := Some t\<rparr>))
      | PageBreak \<Rightarrow> Inr (handle_pageEnd st)
      | Flow_CenteredImage ci \<Rightarrow>
          (case frames (pageTemplate st) of
             [] \<Rightarrow> Inl ValueError
           | fr # _ \<Rightarrow>
               (case frame_avail fr of (aw, ah) \<Rightarrow>
                  bind_err (wrap fs ci aw ah) (\<lambda>(ci', sz).
                  bind_err (draw ci') (\<lambda>ops.
                  add_placed (Placed_Image ops) st)))))"

text \<open>
  Modelled from the spec: the engine's loop over the story. A page begins, if none is
  open, before each flowable is handled.
\<close>

fun build_story ::
  "files \<Rightarrow> BaseDocTemplate \<Rightarrow> build_state \<Rightarrow> flowable list \<Rightarrow> error + build_state" where
  "build_story fs d st [] = Inr st"
| "build_story fs d st (f # fl) =
     (case handle_pageBegin d st of
        Inl e \<Rightarrow> Inl e
      | Inr st1 \<Rightarrow>
          (case handle_flowable fs d st1 f of
             Inl e \<Rightarrow> Inl e
           | Inr st2 \<Rightarrow> build_story fs d st2 fl))"

text \<open>
  Modelled from the spec: \<^verbatim>\<open>doc.build(story)\<close>. The first template of the document is
  the current one at the start; the page that is open at the end of the story is finished.
\<close>

definition build :: "files \<Rightarrow> BaseDocTemplate \<Rightarrow> flowable list \<Rightarrow> error + page list" where
  "build fs d fl =
     (case pageTemplates d of
        [] \<Rightarrow> Inl ValueError
      | t # _ \<Rightarrow>
          bind_err
            (build_story fs d
               \<lparr>finished = [], current = None, pageTemplate = t, nextTemplate = None,
                page_no = 0\<rparr> fl)
            (\<lambda>st. Inr (finished (handle_pageEnd st))))"

subsection \<open>\<^verbatim>\<open>build_pdf\<close>\<close>

text \<open>The title that line 188 passes: the UTF-8 bytes of \<^verbatim>\<open>Estadisticas elBulli1846\<close>, with an acute accent on the first i.\<close>

definition body_title :: string where
  "body_title = ''Estad'' @ [CHR 0xC3, CHR 0xAD] @ ''sticas elBulli1846''"

definition frame_cover :: Frame where
  "frame_cover = init_Frame (0 * cm) (0 * cm) (1000 * cm) (1000 * cm) ''COVER''"

definition frame_body :: Frame where
  "frame_body = init_Frame (2 * cm) (2.5 * cm) (27.7 * cm) (16 * cm) ''BODY''"

definition cover_tpl :: "files \<Rightarrow> string \<Rightarrow> PageTemplate" where
  "cover_tpl fs file_name =
     \<lparr>tpl_id = ''COVER'', frames = [frame_cover],
      onPage = (\<lambda>ps n. draw_cover fs ps ''resources/cover.jpg'' file_name (- 1.0) 5.8)\<rparr>"

definition body_tpl :: "metrics \<Rightarrow> files \<Rightarrow> string \<Rightarrow> int \<Rightarrow> PageTemplate" where
  "body_tpl sw fs file_name total_visitors =
     \<lparr>tpl_id = ''BODY'', frames = [frame_body],
      onPage = (\<lambda>ps n. Inr (draw_common_elements sw fs ps n file_name total_visitors
                              body_title))\<rparr>"

text \<open>Lines 192 to 197: the document, in landscape A4, with the two templates.\<close>

definition doc :: "metrics \<Rightarrow> files \<Rightarrow> string \<Rightarrow> int \<Rightarrow> BaseDocTemplate" where
  "doc sw fs file_name total_visitors =
     \<lparr>pagesize = landscape A4,
      pageTemplates = [cover_tpl fs file_name, body_tpl sw fs file_name total_visitors]\<rparr>"

text \<open>
  \<^verbatim>\<open>build_pdf(output_path, titulo, file_name, total_visitors, page_images)\<close>: the result
  is the list of pages written to \<open>output_path\<close>, or the exception that leaves the call.
  The code does not use \<open>titulo\<close>.
\<close>

definition build_pdf ::
  "metrics \<Rightarrow> files \<Rightarrow> string \<Rightarrow> string \<Rightarrow> string \<Rightarrow> int \<Rightarrow> string list option
     \<Rightarrow> error + page list" where
  "build_pdf sw fs output_path titulo file_name total_visitors page_images =
     build fs (doc sw fs file_name total_visitors) (story page_images)"

section \<open>Notions used in the statements\<close>

text \<open>
  The precedence of the sizing hints as the specification words it: a scale factor first,
  then both targets, then the one target that is given, then the intrinsic size. A hint is
  given when it is not \<open>None\<close>.
\<close>

definition spec_draw_size ::
  "real option \<Rightarrow> real option \<Rightarrow> real option \<Rightarrow> nat \<Rightarrow> nat \<Rightarrow> real \<times> real" where
  "spec_draw_size sc tw th iw ih =
     (case sc of
        Some s \<Rightarrow> (real iw * s, real ih * s)
      | None \<Rightarrow>
          (case (tw, th) of
             (Some w, Some h) \<Rightarrow>
               (real iw * min (w / real iw) (h / real ih),
                real ih * min (w / real iw) (h / real ih))
           | (Some w, None) \<Rightarrow> (real iw * (w / real iw), real ih * (w / real iw))
           | (None, Some h) \<Rightarrow> (real iw * (h / real ih), real ih * (h / real ih))
           | (None, None) \<Rightarrow> (real iw, real ih)))"

text \<open>A target of zero counts as not given.\<close>

definition nonzero_hint :: "real option \<Rightarrow> real option" where
  "nonzero_hint v = (if v = Some 0 then None else v)"

text \<open>The draw size that a call of \<open>wrap\<close> has stored in the object, if it returned.\<close>

definition stored_size ::
  "error + (CenteredImage \<times> (real \<times> real)) \<Rightarrow> (real \<times> real) option" where
  "stored_size r =
     (case r of
        Inl e \<Rightarrow> None
      | Inr (ci, sz) \<Rightarrow>
          (case (priv_dw ci, priv_dh ci) of
             (Some dw, Some dh) \<Rightarrow> Some (dw, dh)
           | _ \<Rightarrow> None))"

text \<open>The size that a call of \<open>wrap\<close> has returned, if it returned.\<close>

definition returned_size ::
  "error + (CenteredImage \<times> (real \<times> real)) \<Rightarrow> (real \<times> real) option" where
  "returned_size r = (case r of Inl e \<Rightarrow> None | Inr (ci, sz) \<Rightarrow> Some sz)"

text \<open>An image file that can be read and has a positive pixel size.\<close>

definition readable :: "files \<Rightarrow> string \<Rightarrow> bool" where
  "readable fs p = (case fs p of None \<Rightarrow> False | Some (iw, ih) \<Rightarrow> 0 < iw \<and> 0 < ih)"

text \<open>A path whose file, if it can be read, has a positive pixel size.\<close>

definition sized :: "files \<Rightarrow> string \<Rightarrow> bool" where
  "sized fs p = (case fs p of None \<Rightarrow> True | Some (iw, ih) \<Rightarrow> 0 < iw \<and> 0 < ih)"

text \<open>The paths of the image flowables placed on a page, in the order they were placed.\<close>

fun op_images :: "canvas_op \<Rightarrow> string list" where
  "op_images (drawImage p x y w h) = [p]"
| "op_images _ = []"

fun placed_images :: "placed \<Rightarrow> string list" where
  "placed_images (Placed_Image ops) = concat (map op_images ops)"
| "placed_images (Placed_Paragraph s) = []"

definition images_on :: "page \<Rightarrow> string list" where
  "images_on pg = concat (map placed_images (content pg))"

text \<open>
  The strings that a page's template callback drew right-aligned. The page number is the
  only string the module draws with \<^verbatim>\<open>drawRightString\<close>.
\<close>

fun op_numbers :: "canvas_op \<Rightarrow> string list" where
  "op_numbers (drawRightString x y s) = [s]"
| "op_numbers _ = []"

definition numbers_on :: "page \<Rightarrow> string list" where
  "numbers_on pg = concat (map op_numbers (decorations pg))"

fun is_drawImage :: "canvas_op \<Rightarrow> bool" where
  "is_drawImage (drawImage p x y w h) = True"
| "is_drawImage _ = False"


text \<open>
  The pages that \<open>build_pdf\<close> produces from readable files: the cover, and one body page
  for each image, with what \<open>wrap\<close> and \<open>draw\<close> give for the flowable of line 206 in the
  body frame.
\<close>

definition body_image :: "files \<Rightarrow> string \<Rightarrow> canvas_op list" where
  "body_image fs p =
     (case fs p of
        None \<Rightarrow> []
      | Some (iw, ih) \<Rightarrow>
          (case frame_avail frame_body of (aw, ah) \<Rightarrow>
             let r = 26 * cm / real iw;
                 dw = real iw * r;
                 dh = real ih * r
             in [drawImage p ((aw - dw) / 2 - 1 * cm) ((ah - dh) / 2) dw dh]))"

definition body_page :: "metrics \<Rightarrow> files \<Rightarrow> string \<Rightarrow> int \<Rightarrow> nat \<Rightarrow> string \<Rightarrow> page" where
  "body_page sw fs file_name total_visitors n p =
     \<lparr>number = n, template = ''BODY'',
      decorations =
        draw_common_elements sw fs (landscape A4) n file_name total_visitors body_title,
      content = [Placed_Image (body_image fs p)]\<rparr>"

fun body_pages :: "metrics \<Rightarrow> files \<Rightarrow> string \<Rightarrow> int \<Rightarrow> nat \<Rightarrow> string list \<Rightarrow> page list" where
  "body_pages sw fs file_name total_visitors n [] = []"
| "body_pages sw fs file_name total_visitors n (p # ps) =
     body_page sw fs file_name total_visitors n p
       # body_pages sw fs file_name total_visitors (Suc n) ps"

definition cover_page :: "files \<Rightarrow> string \<Rightarrow> page" where
  "cover_page fs file_name =
     \<lparr>number = 1, template = ''COVER'',
      decorations =
        (case draw_cover fs (landscape A4) ''resources/cover.jpg'' file_name (- 1.0) 5.8 of
           Inl e \<Rightarrow> [] | Inr ops \<Rightarrow> ops),
      content = [Placed_Paragraph '' '']\<rparr>"

text \<open>Two file systems and a font metric for the examples.\<close>

definition example_files :: files where
  "example_files =
     [''resources/cover.jpg'' \<mapsto> (1200, 800), ''a.png'' \<mapsto> (800, 600),
      ''b.png'' \<mapsto> (640, 480)]"

definition example_metrics :: metrics where
  "example_metrics s f z = z * real (length s) / 2"


section \<open>Basic facts\<close>

lemma bind_err_simps [simp]:
  "bind_err (Inl e) f = Inl e" "bind_err (Inr x) f = f x"
  by (simp_all add: bind_err_def)

lemma ImageReader_Some: "fs p = Some sz \<Longrightarrow> ImageReader fs p = Inr sz"
  by (simp add: ImageReader_def)

lemma ImageReader_None: "fs p = None \<Longrightarrow> ImageReader fs p = Inl (IOError p)"
  by (simp add: ImageReader_def)

lemma cm_pos: "0 < cm"
  by (simp add: cm_def inch_def)

lemma readableE: "readable fs p \<Longrightarrow> \<exists>iw ih. fs p = Some (iw, ih) \<and> 0 < iw \<and> 0 < ih"
  by (auto simp add: readable_def split: option.splits)

lemma sizedE: "sized fs p \<Longrightarrow> fs p = Some (iw, ih) \<Longrightarrow> 0 < iw \<and> 0 < ih"
  by (simp add: sized_def)

lemma sized_readable: "sized fs p \<Longrightarrow> fs p \<noteq> None \<Longrightarrow> readable fs p"
  by (auto simp add: sized_def readable_def split: option.splits)

section \<open>The size that \<open>wrap\<close> computes\<close>

lemma hint_size_spec:
  assumes "0 < iw" and "0 < ih"
  shows "hint_size ci iw ih =
           Inr (spec_draw_size (scale ci) (nonzero_hint (draw_w ci)) (nonzero_hint (draw_h ci))
                  iw ih)"
  using assms
  by (auto simp add: hint_size_def spec_draw_size_def nonzero_hint_def truthy_def Let_def
      split: option.splits)

lemma hint_size_aspect:
  "hint_size ci iw ih = Inr (dw, dh) \<Longrightarrow> dw * real ih = dh * real iw"
  by (auto simp add: hint_size_def Let_def split: option.splits if_splits)

lemma hint_size_pos:
  "hint_size ci iw ih = Inr (dw, dh) \<Longrightarrow> 0 < dh \<Longrightarrow> 0 < ih"
  by (cases "ih = 0") (auto simp add: hint_size_def Let_def split: option.splits if_splits)

lemma rfit_le_1: "rfit aw ah dw dh \<le> 1"
  by (simp add: rfit_def)

lemma rfit_width: "0 < dw \<Longrightarrow> dw * rfit aw ah dw dh \<le> aw"
proof -
  assume p: "0 < dw"
  have "rfit aw ah dw dh \<le> aw / dw" by (simp add: rfit_def)
  then show ?thesis using p by (simp add: pos_le_divide_eq mult.commute)
qed

lemma rfit_height: "0 < dh \<Longrightarrow> dh * rfit aw ah dw dh \<le> ah"
proof -
  assume p: "0 < dh"
  have "rfit aw ah dw dh \<le> ah / dh" by (simp add: rfit_def)
  then show ?thesis using p by (simp add: pos_le_divide_eq mult.commute)
qed

lemma rfit_shrinks: "0 < (d::real) \<Longrightarrow> d * rfit aw ah dw dh \<le> d"
  using rfit_le_1 [of aw ah dw dh] by (simp add: mult_left_le)

text \<open>
  C2, as the claim states it, fails in two ways. A target width of 0 is given, and the
  code's truth test takes it for absent: for a 200 by 100 image with target width 0 and
  target height 100 the claim's rule for two targets gives the size (0, 0), and \<open>wrap\<close>
  stores (200, 100), by the rule for the height alone. And with the fit flag the size of
  the precedence is not the draw size: for an 800 by 600 image with scale factor 2 and the
  fit flag, in an area of 400 by 600, the claim gives (1600, 1200) and \<open>wrap\<close> stores
  (400, 300).
\<close>

theorem wrap_zero_target_counterexample:
  "stored_size (wrap [''a.png'' \<mapsto> (200, 100)]
                  (init_CenteredImage ''a.png'' (Some 0) (Some 100) None False) 500 500)
     = Some (200, 100) \<and>
   spec_draw_size None (Some 0) (Some 100) 200 100 = (0, 0) \<and>
   stored_size (wrap example_files (init_CenteredImage ''a.png'' None None (Some 2) True)
                  400 600)
     = Some (400, 300) \<and>
   spec_draw_size (Some 2) None None 800 600 = (1600, 1200)"
  by (simp add: stored_size_def wrap_def ImageReader_def init_CenteredImage_def hint_size_def
      truthy_def fit_size_def spec_draw_size_def example_files_def rfit_def)

text \<open>
  C2, amended: for every image of positive pixel size and every combination of hints, where
  a target width or height counts as given when it is neither \<open>None\<close> nor zero, let
  \<open>(dw, dh)\<close> be the size of the specification's precedence: the scale factor if one is
  given, else the smaller of the two ratios if both targets are given, else the ratio of
  the one target that is given, else the intrinsic size. Without the fit flag \<open>wrap\<close>
  stores \<open>(dw, dh)\<close> as the draw size. With the fit flag it stores \<open>(dw, dh)\<close> multiplied
  in both dimensions by the least of \<open>availWidth / dw\<close>, \<open>availHeight / dh\<close> and 1, and
  raises \<^verbatim>\<open>ZeroDivisionError\<close> when \<open>dw\<close> or \<open>dh\<close> is zero.
\<close>

theorem wrap_draw_size_precedence:
  assumes "fs (path ci) = Some (iw, ih)" and "0 < iw" and "0 < ih"
    and "spec_draw_size (scale ci) (nonzero_hint (draw_w ci)) (nonzero_hint (draw_h ci)) iw ih
           = (dw, dh)"
  shows "(\<not> fit ci \<longrightarrow> stored_size (wrap fs ci aw ah) = Some (dw, dh)) \<and>
         (fit ci \<and> dw \<noteq> 0 \<and> dh \<noteq> 0 \<longrightarrow>
            stored_size (wrap fs ci aw ah)
              = Some (dw * min (min (aw / dw) (ah / dh)) 1, dh * min (min (aw / dw) (ah / dh)) 1)) \<and>
         (fit ci \<and> (dw = 0 \<or> dh = 0) \<longrightarrow> wrap fs ci aw ah = Inl ZeroDivisionError)"
proof -
  have h: "hint_size ci iw ih = Inr (dw, dh)"
    using hint_size_spec [OF assms(2,3), of ci] assms(4) by simp
  have a: "stored_size (wrap fs ci aw ah) = Some (dw, dh)" if "\<not> fit ci"
    using that h assms(1)
    by (simp add: wrap_def ImageReader_Some fit_size_def stored_size_def)
  have b: "stored_size (wrap fs ci aw ah)
              = Some (dw * min (min (aw / dw) (ah / dh)) 1, dh * min (min (aw / dw) (ah / dh)) 1)"
    if "fit ci" "dw \<noteq> 0" "dh \<noteq> 0"
    using that h assms(1)
    by (simp add: wrap_def ImageReader_Some fit_size_def stored_size_def rfit_def)
  have c: "wrap fs ci aw ah = Inl ZeroDivisionError" if "fit ci" "dw = 0 \<or> dh = 0"
    using that h assms(1)
    by (auto simp add: wrap_def ImageReader_Some fit_size_def)
  show ?thesis using a b c by blast
qed

theorem wrap_draw_size_precedence_witness:
  "example_files ''a.png'' = Some (800, 600) \<and>
   spec_draw_size None (nonzero_hint (Some 400)) (nonzero_hint (Some 0)) 800 600 = (400, 300) \<and>
   stored_size (wrap example_files (init_CenteredImage ''a.png'' (Some 400) (Some 0) None False)
                  500 500)
     = Some (400, 300) \<and>
   stored_size (wrap example_files (init_CenteredImage ''a.png'' (Some 400) (Some 0) None True)
                  200 600)
     = Some (200, 150)"
proof -
  let ?c1 = "init_CenteredImage ''a.png'' (Some 400) (Some 0) None False"
  let ?c2 = "init_CenteredImage ''a.png'' (Some 400) (Some 0) None True"
  have e: "example_files ''a.png'' = Some (800, 600)" by (simp add: example_files_def)
  have f: "example_files (path ?c1) = Some (800, 600)" "example_files (path ?c2) = Some (800, 600)"
    by (simp_all add: example_files_def init_CenteredImage_def)
  have s0: "spec_draw_size None (nonzero_hint (Some 400)) (nonzero_hint (Some 0)) 800 600
              = (400, 300)"
    by (simp add: spec_draw_size_def nonzero_hint_def)
  have s: "spec_draw_size (scale ?c1) (nonzero_hint (draw_w ?c1)) (nonzero_hint (draw_h ?c1))
             800 600 = (400, 300)"
    "spec_draw_size (scale ?c2) (nonzero_hint (draw_w ?c2)) (nonzero_hint (draw_h ?c2))
             800 600 = (400, 300)"
    by (simp_all add: spec_draw_size_def nonzero_hint_def init_CenteredImage_def)
  have n: "\<not> fit ?c1" "fit ?c2" by (simp_all add: init_CenteredImage_def)
  have a: "stored_size (wrap example_files ?c1 500 500) = Some (400, 300)"
    using wrap_draw_size_precedence
            [where fs = example_files and ci = ?c1 and iw = 800 and ih = 600
               and dw = 400 and dh = 300 and aw = 500 and ah = 500] f(1) s(1) n(1)
    by simp
  have b: "stored_size (wrap example_files ?c2 200 600) = Some (200, 150)"
    using wrap_draw_size_precedence
            [where fs = example_files and ci = ?c2 and iw = 800 and ih = 600
               and dw = 400 and dh = 300 and aw = 200 and ah = 600] f(2) s(2) n(2)
    by simp
  show ?thesis by (intro conjI e s0 a b)
qed

section \<open>Aspect ratio and the fit step\<close>

text \<open>In exact arithmetic the proportion is kept exactly and the fit step stays within the area.\<close>

lemma wrap_exact_aspect_and_fit:
  assumes "fs (path ci) = Some (iw, ih)"
    and "hint_size ci iw ih = Inr (dw0, dh0)"
    and "0 < dw0" and "0 < dh0"
  shows "\<exists>ci' dw dh.
           wrap fs ci aw ah = Inr (ci', (aw, ah)) \<and>
           priv_dw ci' = Some dw \<and> priv_dh ci' = Some dh \<and>
           dw * real ih = dh * real iw \<and>
           (dh \<noteq> 0 \<longrightarrow> dw / dh = real iw / real ih) \<and>
           (fit ci \<longrightarrow>
              rfit aw ah dw0 dh0 \<le> 1 \<and>
              dw = dw0 * rfit aw ah dw0 dh0 \<and> dh = dh0 * rfit aw ah dw0 dh0 \<and>
              dw \<le> dw0 \<and> dh \<le> dh0 \<and> dw \<le> aw \<and> dh \<le> ah)"
proof -
  have asp: "dw0 * real ih = dh0 * real iw"
    using assms(2) by (rule hint_size_aspect)
  have ih: "0 < ih"
    using assms(2,4) by (rule hint_size_pos)
  show ?thesis
  proof (cases "fit ci")
    case False
    have "wrap fs ci aw ah =
            Inr (ci\<lparr>priv_dw := Some dw0, priv_dh := Some dh0,
                    availW := Some aw, availH := Some ah\<rparr>, (aw, ah))"
      using assms False by (simp add: wrap_def ImageReader_Some fit_size_def)
    moreover have "dh0 \<noteq> 0 \<longrightarrow> dw0 / dh0 = real iw / real ih"
      using asp ih by (simp add: frac_eq_eq)
    ultimately show ?thesis using asp False by simp
  next
    case True
    let ?r = "rfit aw ah dw0 dh0"
    have w: "wrap fs ci aw ah =
            Inr (ci\<lparr>priv_dw := Some (dw0 * ?r), priv_dh := Some (dh0 * ?r),
                    availW := Some aw, availH := Some ah\<rparr>, (aw, ah))"
      using assms True by (simp add: wrap_def ImageReader_Some fit_size_def)
    have a: "(dw0 * ?r) * real ih = (dh0 * ?r) * real iw"
      using asp by (simp add: mult.commute mult.left_commute)
    have b: "dh0 * ?r \<noteq> 0 \<longrightarrow> (dw0 * ?r) / (dh0 * ?r) = real iw / real ih"
      using asp ih assms(4) by (auto simp add: frac_eq_eq mult.commute)
    show ?thesis
      using w a b rfit_le_1 [of aw ah dw0 dh0] rfit_shrinks [OF assms(3)]
        rfit_shrinks [OF assms(4)] rfit_width [OF assms(3)] rfit_height [OF assms(4)]
      by simp
  qed
qed

subsection \<open>Rounding\<close>























section \<open>Where \<open>draw\<close> puts the image\<close>

text \<open>
  C8: after \<open>wrap\<close> has returned for an available area of width \<open>W\<close> and height \<open>H\<close> with
  the draw size \<open>(dw, dh)\<close>, \<open>draw\<close> paints the image with that size at the x-coordinate
  \<open>(W - dw) / 2 - 1 * cm\<close> and the y-coordinate \<open>(H - dh) / 2\<close>.
\<close>

theorem draw_centred_position:
  assumes "wrap fs ci W H = Inr (ci', sz)"
  shows "\<exists>dw dh. priv_dw ci' = Some dw \<and> priv_dh ci' = Some dh \<and>
           draw ci' =
             Inr [drawImage (path ci) ((W - dw) / 2 - 1 * cm) ((H - dh) / 2) dw dh]"
  using assms
  by (auto simp add: wrap_def bind_err_def draw_def Let_def split: sum.splits prod.splits)

theorem draw_centred_position_witness:
  "\<exists>ci'. wrap example_files (init_CenteredImage ''a.png'' None None None False) 1000 700
            = Inr (ci', (1000, 700)) \<and>
          draw ci' = Inr [drawImage ''a.png'' (100 - cm) 50 800 600]"
proof -
  let ?ci = "init_CenteredImage ''a.png'' None None None False"
  have w: "wrap example_files ?ci 1000 700 =
             Inr (?ci\<lparr>priv_dw := Some 800, priv_dh := Some 600,
                      availW := Some 1000, availH := Some 700\<rparr>, (1000, 700))"
    by (simp add: wrap_def ImageReader_def example_files_def init_CenteredImage_def
        hint_size_def truthy_def fit_size_def)
  have p: "path ?ci = ''a.png''" by (simp add: init_CenteredImage_def)
  show ?thesis
    using draw_centred_position [OF w] w p by simp
qed

section \<open>The cover title\<close>

text \<open>
  C9, as the claim states it, fails for small pages: on a page 2 cm high the title is drawn
  at 1 cm, which is above the page height less 1.5 cm.
\<close>

theorem text_y_small_page_counterexample:
  "text_y 5.8 (2 * cm) = 1 * cm \<and> \<not> text_y 5.8 (2 * cm) \<le> 2 * cm - 1.5 * cm"
  by (simp add: text_y_def cm_def inch_def)

text \<open>
  C9, amended: for every page height the title's y-coordinate is at least 1 cm; and for
  every page height of at least 2.5 cm it is the configured distance from the page bottom
  clamped to the interval from 1 cm to the page height less 1.5 cm, so it is at most the
  page height less 1.5 cm.
\<close>

theorem text_y_clamped:
  "1 * cm \<le> text_y t h \<and>
   (2.5 * cm \<le> h \<longrightarrow>
      text_y t h \<le> h - 1.5 * cm \<and>
      (t * cm < 1 * cm \<longrightarrow> text_y t h = 1 * cm) \<and>
      (1 * cm \<le> t * cm \<and> t * cm \<le> h - 1.5 * cm \<longrightarrow> text_y t h = t * cm) \<and>
      (h - 1.5 * cm < t * cm \<longrightarrow> text_y t h = h - 1.5 * cm))"
  by (auto simp add: text_y_def)

theorem text_y_clamped_witness:
  "2.5 * cm \<le> snd (landscape A4) \<and>
   text_y 5.8 (snd (landscape A4)) = 5.8 * cm \<and>
   text_y 30 (snd (landscape A4)) = snd (landscape A4) - 1.5 * cm \<and>
   text_y 0.2 (snd (landscape A4)) = 1 * cm"
proof -
  have h: "snd (landscape A4) = 21 * cm"
    using cm_pos by (simp add: landscape_def A4_def mm_def)
  have b: "2.5 * cm \<le> 21 * cm" using cm_pos by simp
  have m: "1 * cm \<le> 5.8 * cm \<and> 5.8 * cm \<le> 21 * cm - 1.5 * cm" using cm_pos by simp
  have u: "21 * cm - 1.5 * cm < 30 * cm" using cm_pos by simp
  have l: "0.2 * cm < 1 * cm" using cm_pos by simp
  have "text_y 5.8 (21 * cm) = 5.8 * cm"
    using text_y_clamped [of "5.8" "21 * cm"] b m by blast
  moreover have "text_y 30 (21 * cm) = 21 * cm - 1.5 * cm"
    using text_y_clamped [of 30 "21 * cm"] b u by blast
  moreover have "text_y 0.2 (21 * cm) = 1 * cm"
    using text_y_clamped [of "0.2" "21 * cm"] b l by blast
  ultimately show ?thesis using b by (simp add: h)
qed

section \<open>The visitor count\<close>










section \<open>The logo\<close>

text \<open>
  C5: when the logo file cannot be read, the \<^verbatim>\<open>try\<close> block raises the reader's error, the
  body template's callback still returns normally, and what it draws is what it draws with
  a logo present less the logo image: every other call on the canvas is the same, with the
  same coordinates, in the same order.
\<close>

theorem draw_common_elements_missing_logo:
  assumes "fs ''resources/water.png'' = None"
  shows "try_logo fs width height = Inl (IOError ''resources/water.png'') \<and>
         onPage (body_tpl sw fs file_name total_visitors) (width, height) n
           = Inr (draw_common_elements sw fs (width, height) n file_name total_visitors
                    body_title) \<and>
         draw_common_elements sw fs (width, height) n file_name total_visitors title
           = filter (\<lambda>op. \<not> is_drawImage op)
               (draw_common_elements sw (fs(''resources/water.png'' \<mapsto> (iw, ih)))
                  (width, height) n file_name total_visitors title) \<and>
         (0 < ih \<longrightarrow>
            length (draw_common_elements sw (fs(''resources/water.png'' \<mapsto> (iw, ih)))
                      (width, height) n file_name total_visitors title)
            = length (draw_common_elements sw fs (width, height) n file_name total_visitors
                        title) + 1)"
proof -
  let ?fs' = "fs(''resources/water.png'' \<mapsto> (iw, ih))"
  have t: "try_logo fs width height = Inl (IOError ''resources/water.png'')"
    using assms by (simp add: try_logo_def ImageReader_None)
  then have l: "draw_logo fs width height = []" by (simp add: draw_logo_def)
  have l': "filter (\<lambda>op. \<not> is_drawImage op) (draw_logo ?fs' width height) = []"
    by (simp add: draw_logo_def try_logo_def ImageReader_def Let_def)
  have l'': "0 < ih \<longrightarrow> length (draw_logo ?fs' width height) = 1"
    by (simp add: draw_logo_def try_logo_def ImageReader_def Let_def)
  have o: "onPage (body_tpl sw fs file_name total_visitors) (width, height) n
           = Inr (draw_common_elements sw fs (width, height) n file_name total_visitors
                    body_title)"
    by (simp add: body_tpl_def)
  have f: "draw_common_elements sw fs (width, height) n file_name total_visitors title
           = filter (\<lambda>op. \<not> is_drawImage op)
               (draw_common_elements sw ?fs' (width, height) n file_name total_visitors title)"
    using l l' by (simp add: draw_common_elements_def Let_def)
  have g: "0 < ih \<longrightarrow>
            length (draw_common_elements sw ?fs' (width, height) n file_name total_visitors title)
            = length (draw_common_elements sw fs (width, height) n file_name total_visitors
                        title) + 1"
    using l l'' by (simp add: draw_common_elements_def Let_def)
  show ?thesis by (intro conjI t o f g)
qed

theorem draw_common_elements_missing_logo_witness:
  "example_files ''resources/water.png'' = None \<and>
   try_logo example_files 800 600 = Inl (IOError ''resources/water.png'') \<and>
   length (draw_common_elements example_metrics
             (example_files(''resources/water.png'' \<mapsto> (300, 100))) (800, 600) 2
             ''Julio'' 1234567 body_title)
     = length (draw_common_elements example_metrics example_files (800, 600) 2
                 ''Julio'' 1234567 body_title) + 1"
proof -
  have n: "example_files ''resources/water.png'' = None"
    by (simp add: example_files_def)
  show ?thesis
    using draw_common_elements_missing_logo
            [where fs = example_files and width = 800 and height = 600
               and sw = example_metrics and file_name = "''Julio''"
               and total_visitors = 1234567 and n = 2 and title = body_title
               and iw = 300 and ih = 100] n
    by simp
qed

section \<open>The pages of the document\<close>

lemma draw_cover_readable:
  "readable fs image_path \<Longrightarrow> \<exists>ops. draw_cover fs ps image_path fn off t = Inr ops"
  by (cases ps) (auto simp add: draw_cover_def ImageReader_Some Let_def dest!: readableE)

lemma draw_cover_unreadable:
  "fs image_path = None \<Longrightarrow> draw_cover fs ps image_path fn off t = Inl (IOError image_path)"
  by (cases ps) (simp add: draw_cover_def ImageReader_None)

lemma wrap_draw_body:
  assumes "fs p = Some (iw, ih)" and "0 < iw"
  shows "\<exists>ci'. wrap fs (init_CenteredImage p (Some (26 * cm)) None None False) aw ah
                 = Inr (ci', (aw, ah)) \<and>
               draw ci' = Inr (let r = 26 * cm / real iw; dw = real iw * r; dh = real ih * r
                    in [drawImage p ((aw - dw) / 2 - 1 * cm) ((ah - dh) / 2) dw dh])"
  using assms cm_pos
  by (simp add: wrap_def ImageReader_Some init_CenteredImage_def hint_size_def truthy_def
      fit_size_def draw_def Let_def)

lemma wrap_unreadable:
  "fs (path ci) = None \<Longrightarrow> wrap fs ci aw ah = Inl (IOError (path ci))"
  by (simp add: wrap_def ImageReader_None)

text \<open>One image of the story, reached with no page open: a body page begins and takes it.\<close>

lemma image_step:
  assumes "current st = None"
    and "pageTemplate st = body_tpl sw fs fn tv"
    and "fs p = Some (iw, ih)" and "0 < iw"
  shows "\<exists>st1. handle_pageBegin (doc sw fs fn tv) st = Inr st1 \<and>
           handle_flowable fs (doc sw fs fn tv) st1
              (Flow_CenteredImage (init_CenteredImage p (Some (26 * cm)) None None False))
           = Inr (st\<lparr>current := Some (body_page sw fs fn tv (page_no st + 1) p),
                     page_no := page_no st + 1\<rparr>)"
proof -
  obtain aw ah where av: "frame_avail frame_body = (aw, ah)"
    by (cases "frame_avail frame_body")
  from wrap_draw_body [of fs p iw ih aw ah] assms(3,4) obtain ci' where
    w: "wrap fs (init_CenteredImage p (Some (26 * cm)) None None False) aw ah
          = Inr (ci', (aw, ah))"
    and d: "draw ci' = Inr (let r = 26 * cm / real iw; dw = real iw * r; dh = real ih * r
                    in [drawImage p ((aw - dw) / 2 - 1 * cm) ((ah - dh) / 2) dw dh])"
    by blast
  have b: "handle_pageBegin (doc sw fs fn tv) st =
        Inr (st\<lparr>current := Some \<lparr>number = page_no st + 1, template = ''BODY'',
                  decorations =
                    draw_common_elements sw fs (landscape A4) (page_no st + 1) fn tv body_title,
                  content = []\<rparr>, page_no := page_no st + 1\<rparr>)"
    using assms(1,2) by (simp add: handle_pageBegin_def doc_def body_tpl_def Let_def)
  show ?thesis
    using assms(2,3) av w d
    by (simp add: b handle_flowable_def body_tpl_def add_placed_def body_page_def
        body_image_def)
qed

text \<open>The loop's story, run from a state with no page open and the body template current.\<close>

lemma image_story_run:
  assumes "current st = None" and "nextTemplate st = None"
    and "pageTemplate st = body_tpl sw fs fn tv"
    and "\<forall>p \<in> set ps. readable fs p"
    and "n = i + length ps"
  shows "\<exists>st'. build_story fs (doc sw fs fn tv) st (image_story n i ps) = Inr st' \<and>
           finished (handle_pageEnd st')
             = finished st @ body_pages sw fs fn tv (page_no st + 1) ps"
  using assms
proof (induction ps arbitrary: st i)
  case Nil
  then show ?case by (simp add: handle_pageEnd_def)
next
  case (Cons p ps)
  from Cons.prems(4) obtain iw ih where sz: "fs p = Some (iw, ih)" "0 < iw"
    using readableE [of fs p] by auto
  let ?st2 = "st\<lparr>current := Some (body_page sw fs fn tv (page_no st + 1) p),
                 page_no := page_no st + 1\<rparr>"
  from image_step [OF Cons.prems(1) Cons.prems(3) sz] obtain st1 where
    s1: "handle_pageBegin (doc sw fs fn tv) st = Inr st1"
    and s2: "handle_flowable fs (doc sw fs fn tv) st1
              (Flow_CenteredImage (init_CenteredImage p (Some (26 * cm)) None None False))
              = Inr ?st2"
    by blast
  show ?case
  proof (cases "ps = []")
    case True
    then show ?thesis
      using s1 s2 Cons.prems(5) by (simp add: handle_pageEnd_def)
  next
    case False
    let ?st3 = "handle_pageEnd ?st2"
    have c3: "current ?st3 = None" "nextTemplate ?st3 = None"
      "pageTemplate ?st3 = body_tpl sw fs fn tv" "page_no ?st3 = page_no st + 1"
      "finished ?st3 = finished st @ [body_page sw fs fn tv (page_no st + 1) p]"
      using Cons.prems(2,3) by (simp_all add: handle_pageEnd_def)
    have r: "\<forall>p \<in> set ps. readable fs p" using Cons.prems(4) by simp
    have n: "n = Suc i + length ps" using Cons.prems(5) by simp
    from Cons.IH [OF c3(1) c3(2) c3(3) r n] obtain st' where
      ih: "build_story fs (doc sw fs fn tv) ?st3 (image_story n (Suc i) ps) = Inr st'"
      and fin: "finished (handle_pageEnd st')
                  = finished ?st3 @ body_pages sw fs fn tv (page_no ?st3 + 1) ps"
      by blast
    have lt: "int i < int n - 1" using False Cons.prems(5) by (cases ps) auto
    have pb: "handle_pageBegin (doc sw fs fn tv) ?st2 = Inr ?st2"
      by (simp add: handle_pageBegin_def)
    have "build_story fs (doc sw fs fn tv) st (image_story n i (p # ps)) = Inr st'"
      using s1 s2 lt pb ih by (simp add: handle_flowable_def)
    then show ?thesis using fin c3 by simp
  qed
qed

text \<open>The three flowables that open the story: the cover page, and the switch to the body.\<close>

lemma story_prefix_run:
  assumes "readable fs ''resources/cover.jpg''"
  shows "build_story fs (doc sw fs fn tv)
           \<lparr>finished = [], current = None, pageTemplate = cover_tpl fs fn,
            nextTemplate = None, page_no = 0\<rparr>
           ([Paragraph '' '', NextPageTemplate ''BODY'', PageBreak] @ fl)
         = build_story fs (doc sw fs fn tv)
           \<lparr>finished = [cover_page fs fn], current = None,
            pageTemplate = body_tpl sw fs fn tv, nextTemplate = None, page_no = 1\<rparr> fl"
proof -
  from draw_cover_readable [OF assms] obtain ops where
    c: "draw_cover fs (landscape A4) ''resources/cover.jpg'' fn (- 1.0) 5.8 = Inr ops"
    by blast
  show ?thesis
    using c
    by (simp add: handle_pageBegin_def handle_flowable_def handle_pageEnd_def add_placed_def
        doc_def cover_tpl_def body_tpl_def cover_page_def Let_def)
qed

lemma build_pdf_unfold:
  "build_pdf sw fs out titulo fn tv pgs
     = bind_err (build_story fs (doc sw fs fn tv)
           \<lparr>finished = [], current = None, pageTemplate = cover_tpl fs fn,
            nextTemplate = None, page_no = 0\<rparr> (story pgs))
          (\<lambda>st. Inr (finished (handle_pageEnd st)))"
  by (simp add: build_pdf_def build_def doc_def)

lemma story_images:
  "story (Some imgs)
     = [Paragraph '' '', NextPageTemplate ''BODY'', PageBreak]
         @ image_story (length imgs) 0 imgs"
  by (cases imgs) (simp_all add: story_def)

lemma build_pdf_pages:
  assumes "readable fs ''resources/cover.jpg''" and "\<forall>p \<in> set imgs. readable fs p"
  shows "build_pdf sw fs out titulo fn tv (Some imgs)
           = Inr (cover_page fs fn # body_pages sw fs fn tv 2 imgs)"
proof -
  let ?st = "\<lparr>finished = [cover_page fs fn], current = None,
            pageTemplate = body_tpl sw fs fn tv, nextTemplate = None, page_no = 1\<rparr>"
  have e: "build_pdf sw fs out titulo fn tv (Some imgs)
     = bind_err (build_story fs (doc sw fs fn tv) ?st (image_story (length imgs) 0 imgs))
          (\<lambda>st. Inr (finished (handle_pageEnd st)))"
    by (simp only: build_pdf_unfold story_images story_prefix_run [OF assms(1)])
  from image_story_run [of ?st sw fs fn tv imgs "length imgs" 0] assms(2) obtain st' where
    "build_story fs (doc sw fs fn tv) ?st (image_story (length imgs) 0 imgs) = Inr st'"
    "finished (handle_pageEnd st')
       = finished ?st @ body_pages sw fs fn tv (page_no ?st + 1) imgs"
    by auto
  then show ?thesis using e by (simp add: numeral_2_eq_2)
qed

lemma body_pages_length: "length (body_pages sw fs fn tv n ps) = length ps"
  by (induction ps arbitrary: n) auto

lemma body_pages_nth:
  "k < length ps \<Longrightarrow> body_pages sw fs fn tv n ps ! k = body_page sw fs fn tv (n + k) (ps ! k)"
proof (induction ps arbitrary: n k)
  case Nil
  then show ?case by simp
next
  case (Cons p ps)
  then show ?case by (cases k) simp_all
qed

lemma images_on_body_page: "readable fs p \<Longrightarrow> images_on (body_page sw fs fn tv n p) = [p]"
  by (cases "frame_avail frame_body")
     (auto simp add: images_on_def body_page_def body_image_def Let_def dest!: readableE)

lemma body_pages_images:
  "\<forall>p \<in> set ps. readable fs p \<Longrightarrow>
     map images_on (body_pages sw fs fn tv n ps) = map (\<lambda>p. [p]) ps"
  by (induction ps arbitrary: n) (auto simp add: images_on_body_page)

lemma images_on_cover: "images_on (cover_page fs fn) = []"
  by (simp add: images_on_def cover_page_def)

lemma draw_logo_numbers: "concat (map op_numbers (draw_logo fs w h)) = []"
  by (auto simp add: draw_logo_def try_logo_def bind_err_def Let_def
      split: sum.splits prod.splits)

lemma numbers_on_body_page: "numbers_on (body_page sw fs fn tv n p) = [str_int (int n - 1)]"
  by (cases "landscape A4")
     (simp add: numbers_on_def body_page_def draw_common_elements_def Let_def
        draw_logo_numbers)

lemma numbers_on_cover: "numbers_on (cover_page fs fn) = []"
  by (cases "landscape A4")
     (auto simp add: numbers_on_def cover_page_def draw_cover_def bind_err_def
        ImageReader_def Let_def split: option.splits sum.splits)

text \<open>
  C1: when the cover image and every page image can be read, \<open>build_pdf\<close> produces one page
  more than there are page images; the first page, with index 1, is laid out with the cover
  template and holds no image flowable; and for every \<open>i\<close> the page after the first
  \<open>i + 1\<close> pages, with index \<open>i + 2\<close>, is laid out with the body template and holds exactly
  the image at index \<open>i\<close> of the input, so that the images appear in input order with none
  repeated, dropped or moved. With no images, absent or an empty list, the document is the
  cover page alone.
\<close>

theorem build_pdf_page_order:
  assumes "readable fs ''resources/cover.jpg''" and "\<forall>p \<in> set imgs. readable fs p"
  shows "\<exists>pages. build_pdf sw fs out titulo fn tv (Some imgs) = Inr pages \<and>
           length pages = length imgs + 1 \<and>
           number (pages ! 0) = 1 \<and> template (pages ! 0) = ''COVER'' \<and>
           map images_on pages = [] # map (\<lambda>p. [p]) imgs \<and>
           (\<forall>i < length imgs. images_on (pages ! (i + 1)) = [imgs ! i] \<and>
                               number (pages ! (i + 1)) = i + 2 \<and>
                               template (pages ! (i + 1)) = ''BODY'') \<and>
           build_pdf sw fs out titulo fn tv None = build_pdf sw fs out titulo fn tv (Some [])"
proof -
  let ?pages = "cover_page fs fn # body_pages sw fs fn tv 2 imgs"
  have b: "build_pdf sw fs out titulo fn tv (Some imgs) = Inr ?pages"
    using assms by (rule build_pdf_pages)
  have l: "length ?pages = length imgs + 1" by (simp add: body_pages_length)
  have c: "number (?pages ! 0) = 1" "template (?pages ! 0) = ''COVER''"
    by (simp_all add: cover_page_def)
  have i: "map images_on ?pages = [] # map (\<lambda>p. [p]) imgs"
    using assms(2) by (simp add: body_pages_images images_on_cover)
  have a: "\<forall>i < length imgs. images_on (?pages ! (i + 1)) = [imgs ! i] \<and>
                 number (?pages ! (i + 1)) = i + 2 \<and> template (?pages ! (i + 1)) = ''BODY''"
  proof (intro allI impI)
    fix i
    assume that: "i < length imgs"
    have "?pages ! (i + 1) = body_page sw fs fn tv (2 + i) (imgs ! i)"
      using that by (simp add: body_pages_nth)
    moreover have "readable fs (imgs ! i)" using that assms(2) by simp
    ultimately show "images_on (?pages ! (i + 1)) = [imgs ! i] \<and>
        number (?pages ! (i + 1)) = i + 2 \<and> template (?pages ! (i + 1)) = ''BODY''"
      by (simp add: images_on_body_page) (simp add: body_page_def)
  qed
  have n: "build_pdf sw fs out titulo fn tv None = build_pdf sw fs out titulo fn tv (Some [])"
    by (simp add: build_pdf_def story_def)
  show ?thesis
    by (rule exI [of _ "?pages"]) (intro conjI b l c i a n)
qed

theorem build_pdf_page_order_witness:
  "readable example_files ''resources/cover.jpg'' \<and>
   readable example_files ''a.png'' \<and> readable example_files ''b.png'' \<and>
   (\<exists>pages. build_pdf example_metrics example_files ''out.pdf'' ''Informe'' ''Julio'' 1234567
               (Some [''a.png'', ''b.png'']) = Inr pages \<and>
            length pages = 3 \<and>
            map images_on pages = [[], [''a.png''], [''b.png'']])"
proof -
  have r1: "readable example_files ''resources/cover.jpg''"
    by (simp add: readable_def example_files_def)
  have r2: "\<forall>p \<in> set [''a.png'', ''b.png'']. readable example_files p"
    by (simp add: readable_def example_files_def)
  have t: "\<exists>pages. build_pdf example_metrics example_files ''out.pdf'' ''Informe'' ''Julio''
               1234567 (Some [''a.png'', ''b.png'']) = Inr pages \<and>
            length pages = length [''a.png'', ''b.png''] + 1 \<and>
            map images_on pages = [] # map (\<lambda>p. [p]) [''a.png'', ''b.png'']"
    using build_pdf_page_order
         [where fs = example_files and imgs = "[''a.png'', ''b.png'']"
            and sw = example_metrics and out = "''out.pdf''" and titulo = "''Informe''"
            and fn = "''Julio''" and tv = 1234567, OF r1 r2]
    by (elim exE conjE, intro exI conjI)
  have e: "length [''a.png'', ''b.png''] + 1 = (3::nat)"
    "[] # map (\<lambda>p. [p]) [''a.png'', ''b.png''] = [[], [''a.png''], [''b.png'']]"
    by simp_all
  have r3: "readable example_files ''a.png''" "readable example_files ''b.png''"
    using r2 by simp_all
  show ?thesis
    using r1 r3 t unfolding e by (intro conjI)
qed

text \<open>
  C6: when the cover image and every page image can be read, the cover page of the document
  that \<open>build_pdf\<close> produces carries no page number, and every body page carries exactly
  one, the decimal form of its page index less one: 1 on the first body page, and one more
  on each page that follows.
\<close>

theorem build_pdf_footer_page_numbers:
  assumes "readable fs ''resources/cover.jpg''" and "\<forall>p \<in> set imgs. readable fs p"
  shows "\<exists>pages. build_pdf sw fs out titulo fn tv (Some imgs) = Inr pages \<and>
           length pages = length imgs + 1 \<and>
           numbers_on (pages ! 0) = [] \<and>
           (\<forall>k < length imgs.
              numbers_on (pages ! (k + 1)) = [str_int (int (number (pages ! (k + 1))) - 1)] \<and>
              numbers_on (pages ! (k + 1)) = [str_nat (k + 1)])"
proof -
  let ?pages = "cover_page fs fn # body_pages sw fs fn tv 2 imgs"
  have b: "build_pdf sw fs out titulo fn tv (Some imgs) = Inr ?pages"
    using assms by (rule build_pdf_pages)
  have l: "length ?pages = length imgs + 1" by (simp add: body_pages_length)
  have c: "numbers_on (?pages ! 0) = []" by (simp add: numbers_on_cover)
  have a: "\<forall>k < length imgs.
              numbers_on (?pages ! (k + 1)) = [str_int (int (number (?pages ! (k + 1))) - 1)] \<and>
              numbers_on (?pages ! (k + 1)) = [str_nat (k + 1)]"
  proof (intro allI impI)
    fix k
    assume that: "k < length imgs"
    have p: "?pages ! (k + 1) = body_page sw fs fn tv (2 + k) (imgs ! k)"
      using that by (simp add: body_pages_nth)
    have n: "number (body_page sw fs fn tv (2 + k) (imgs ! k)) = 2 + k"
      by (simp add: body_page_def)
    have s: "str_int (int (2 + k) - 1) = str_nat (k + 1)"
      by (simp add: str_int_def nat_add_distrib)
    show "numbers_on (?pages ! (k + 1)) = [str_int (int (number (?pages ! (k + 1))) - 1)] \<and>
        numbers_on (?pages ! (k + 1)) = [str_nat (k + 1)]"
      unfolding p n using s by (simp add: numbers_on_body_page)
  qed
  show ?thesis
    by (rule exI [of _ "?pages"]) (intro conjI b l c a)
qed

theorem build_pdf_footer_page_numbers_witness:
  "readable example_files ''resources/cover.jpg'' \<and>
   readable example_files ''a.png'' \<and> readable example_files ''b.png'' \<and>
   (\<exists>pages. build_pdf example_metrics example_files ''out.pdf'' ''Informe'' ''Julio'' 1234567
               (Some [''a.png'', ''b.png'']) = Inr pages \<and>
            numbers_on (pages ! 0) = [] \<and>
            numbers_on (pages ! 1) = [''1''] \<and>
            numbers_on (pages ! 2) = [''2''])"
proof -
  have r1: "readable example_files ''resources/cover.jpg''"
    by (simp add: readable_def example_files_def)
  have r2: "\<forall>p \<in> set [''a.png'', ''b.png'']. readable example_files p"
    by (simp add: readable_def example_files_def)
  from build_pdf_footer_page_numbers
         [where fs = example_files and imgs = "[''a.png'', ''b.png'']"
            and sw = example_metrics and out = "''out.pdf''" and titulo = "''Informe''"
            and fn = "''Julio''" and tv = 1234567, OF r1 r2]
  obtain pages where p:
    "build_pdf example_metrics example_files ''out.pdf'' ''Informe'' ''Julio'' 1234567
       (Some [''a.png'', ''b.png'']) = Inr pages"
    "numbers_on (pages ! 0) = []"
    "\<forall>k < length [''a.png'', ''b.png'']. numbers_on (pages ! (k + 1)) = [str_nat (k + 1)]"
    by blast
  have "numbers_on (pages ! (0 + 1)) = [str_nat (0 + 1)]" using p(3) by simp
  then have n1: "numbers_on (pages ! 1) = [''1'']"
    by (simp add: str_nat.simps digit_char_def)
  have "numbers_on (pages ! (1 + 1)) = [str_nat (1 + 1)]" using p(3) by simp
  then have n2: "numbers_on (pages ! 2) = [''2'']"
    by (simp add: str_nat.simps digit_char_def numeral_2_eq_2)
  have r3: "readable example_files ''a.png''" "readable example_files ''b.png''"
    using r2 by simp_all
  have "\<exists>pages. build_pdf example_metrics example_files ''out.pdf'' ''Informe'' ''Julio''
               1234567 (Some [''a.png'', ''b.png'']) = Inr pages \<and>
            numbers_on (pages ! 0) = [] \<and>
            numbers_on (pages ! 1) = [''1''] \<and>
            numbers_on (pages ! 2) = [''2'']"
    by (rule exI [of _ pages]) (intro conjI p(1,2) n1 n2)
  then show ?thesis using r1 r3 by (intro conjI)
qed

section \<open>An image that cannot be read\<close>

lemma pageBegin_body:
  assumes "pageTemplate st = body_tpl sw fs fn tv"
  shows "\<exists>st1. handle_pageBegin d st = Inr st1 \<and> pageTemplate st1 = body_tpl sw fs fn tv \<and>
               nextTemplate st1 = nextTemplate st \<and> current st1 \<noteq> None"
  using assms
  by (cases "current st") (simp_all add: handle_pageBegin_def body_tpl_def Let_def)

lemma image_flowable_unreadable:
  assumes "pageTemplate st = body_tpl sw fs fn tv" and "fs p = None"
  shows "handle_flowable fs d st
           (Flow_CenteredImage (init_CenteredImage p w h s f)) = Inl (IOError p)"
proof -
  have "path (init_CenteredImage p w h s f) = p" by (simp add: init_CenteredImage_def)
  then have "wrap fs (init_CenteredImage p w h s f) aw ah = Inl (IOError p)" for aw ah
    using wrap_unreadable [of fs "init_CenteredImage p w h s f" aw ah] assms(2) by simp
  then show ?thesis
    using assms(1)
    by (cases "frame_avail frame_body") (simp add: handle_flowable_def body_tpl_def)
qed

lemma image_flowable_readable:
  assumes "pageTemplate st = body_tpl sw fs fn tv" and "current st \<noteq> None"
    and "fs p = Some (iw, ih)" and "0 < iw"
  shows "\<exists>st2. handle_flowable fs d st
           (Flow_CenteredImage (init_CenteredImage p (Some (26 * cm)) None None False))
             = Inr st2 \<and>
           pageTemplate st2 = pageTemplate st \<and> nextTemplate st2 = nextTemplate st \<and>
           current st2 \<noteq> None"
proof -
  obtain aw ah where av: "frame_avail frame_body = (aw, ah)"
    by (cases "frame_avail frame_body")
  from wrap_draw_body [of fs p iw ih aw ah] assms(3,4) obtain ci' ops where
    "wrap fs (init_CenteredImage p (Some (26 * cm)) None None False) aw ah
       = Inr (ci', (aw, ah))"
    "draw ci' = Inr ops"
    by blast
  then show ?thesis
    using assms(1,2) av
    by (auto simp add: handle_flowable_def body_tpl_def add_placed_def)
qed

text \<open>The loop's story stops at the first image that cannot be read.\<close>

lemma image_story_fail:
  assumes "pageTemplate st = body_tpl sw fs fn tv" and "nextTemplate st = None"
    and "\<forall>q \<in> set ps. sized fs q"
    and "p \<in> set ps" and "fs p = None"
  shows "\<exists>q \<in> set ps. fs q = None \<and>
           build_story fs d st (image_story n i ps) = Inl (IOError q)"
  using assms
proof (induction ps arbitrary: st i)
  case Nil
  then show ?case by simp
next
  case (Cons a ps)
  from pageBegin_body [OF Cons.prems(1), of d] obtain st1 where
    s1: "handle_pageBegin d st = Inr st1" "pageTemplate st1 = body_tpl sw fs fn tv"
      "nextTemplate st1 = None" "current st1 \<noteq> None"
    using Cons.prems(2) by auto
  show ?case
  proof (cases "fs a")
    case None
    then have "build_story fs d st (image_story n i (a # ps)) = Inl (IOError a)"
      using s1 image_flowable_unreadable [OF s1(2) None] by simp
    then show ?thesis using None by auto
  next
    case (Some sz)
    obtain iw ih where sz: "fs a = Some (iw, ih)" using Some by (cases sz) auto
    have pos: "0 < iw" using Cons.prems(3) sz sizedE [of fs a iw ih] by simp
    from image_flowable_readable [OF s1(2) s1(4) sz pos, of d] obtain st2 where
      s2: "handle_flowable fs d st1
             (Flow_CenteredImage (init_CenteredImage a (Some (26 * cm)) None None False))
             = Inr st2"
        "pageTemplate st2 = body_tpl sw fs fn tv" "nextTemplate st2 = None"
        "current st2 \<noteq> None"
      using s1 by auto
    have pin: "p \<in> set ps" using Cons.prems(4,5) Some by auto
    have sz': "\<forall>q \<in> set ps. sized fs q" using Cons.prems(3) by simp
    show ?thesis
    proof (cases "int i < int n - 1")
      case True
      let ?st3 = "handle_pageEnd st2"
      have e3: "pageTemplate ?st3 = body_tpl sw fs fn tv" "nextTemplate ?st3 = None"
        using s2 by (auto simp add: handle_pageEnd_def split: option.splits)
      have pb: "handle_pageBegin d st2 = Inr st2"
        using s2(4) by (auto simp add: handle_pageBegin_def)
      from Cons.IH [OF e3 sz' pin Cons.prems(5), of "Suc i"] obtain q where
        "q \<in> set ps" "fs q = None"
        "build_story fs d ?st3 (image_story n (Suc i) ps) = Inl (IOError q)" by blast
      then show ?thesis using s1(1) s2(1) True pb by (auto simp add: handle_flowable_def)
    next
      case False
      from Cons.IH [OF s2(2) s2(3) sz' pin Cons.prems(5), of "Suc i"] obtain q where
        "q \<in> set ps" "fs q = None"
        "build_story fs d st2 (image_story n (Suc i) ps) = Inl (IOError q)" by blast
      then show ?thesis using s1(1) s2(1) False by auto
    qed
  qed
qed

text \<open>
  C4: when some path of the page images cannot be read (and no file that can be read has a
  zero pixel size), \<open>build_pdf\<close> produces no document: the reader's error for a file that
  cannot be read, the cover image or a page image, leaves the call.
\<close>

theorem build_pdf_unreadable_image_fails:
  assumes "p \<in> set imgs" and "fs p = None"
    and "\<forall>q \<in> set (''resources/cover.jpg'' # imgs). sized fs q"
  shows "\<exists>q \<in> set (''resources/cover.jpg'' # imgs).
           fs q = None \<and> build_pdf sw fs out titulo fn tv (Some imgs) = Inl (IOError q)"
proof (cases "fs ''resources/cover.jpg''")
  case None
  have "build_story fs (doc sw fs fn tv)
           \<lparr>finished = [], current = None, pageTemplate = cover_tpl fs fn,
            nextTemplate = None, page_no = 0\<rparr> (story (Some imgs))
          = Inl (IOError ''resources/cover.jpg'')"
    using None
      draw_cover_unreadable [of fs "''resources/cover.jpg''" "landscape A4" fn "- 1.0" "5.8"]
    by (simp add: story_def handle_pageBegin_def cover_tpl_def doc_def Let_def)
  then have "build_pdf sw fs out titulo fn tv (Some imgs)
               = Inl (IOError ''resources/cover.jpg'')"
    by (simp only: build_pdf_unfold bind_err_simps)
  then show ?thesis using None by simp
next
  case (Some sz)
  then have r: "readable fs ''resources/cover.jpg''"
    using assms(3) sized_readable [of fs "''resources/cover.jpg''"] by simp
  let ?st = "\<lparr>finished = [cover_page fs fn], current = None,
            pageTemplate = body_tpl sw fs fn tv, nextTemplate = None, page_no = 1\<rparr>"
  have e: "build_pdf sw fs out titulo fn tv (Some imgs)
     = bind_err (build_story fs (doc sw fs fn tv) ?st (image_story (length imgs) 0 imgs))
          (\<lambda>st. Inr (finished (handle_pageEnd st)))"
    by (simp only: build_pdf_unfold story_images story_prefix_run [OF r])
  have "\<forall>q \<in> set imgs. sized fs q" using assms(3) by simp
  from image_story_fail
         [of ?st sw fs fn tv imgs p "doc sw fs fn tv" "length imgs" 0, OF _ _ this assms(1,2)]
  obtain q where "q \<in> set imgs" "fs q = None"
    "build_story fs (doc sw fs fn tv) ?st (image_story (length imgs) 0 imgs)
       = Inl (IOError q)"
    by auto
  then show ?thesis using e by auto
qed

theorem build_pdf_unreadable_image_fails_witness:
  "''missing.png'' \<in> set [''a.png'', ''missing.png'', ''b.png''] \<and>
   example_files ''missing.png'' = None \<and>
   sized example_files ''resources/cover.jpg'' \<and> sized example_files ''a.png'' \<and>
   sized example_files ''missing.png'' \<and> sized example_files ''b.png'' \<and>
   build_pdf example_metrics example_files ''out.pdf'' ''Informe'' ''Julio'' 1234567
     (Some [''a.png'', ''missing.png'', ''b.png'']) = Inl (IOError ''missing.png'')"
proof -
  have m: "''missing.png'' \<in> set [''a.png'', ''missing.png'', ''b.png'']" by simp
  have n: "example_files ''missing.png'' = None" by (simp add: example_files_def)
  have s: "\<forall>q \<in> set (''resources/cover.jpg'' # [''a.png'', ''missing.png'', ''b.png'']).
             sized example_files q"
    by (simp add: sized_def example_files_def)
  from build_pdf_unreadable_image_fails
         [where fs = example_files and imgs = "[''a.png'', ''missing.png'', ''b.png'']"
            and p = "''missing.png''" and sw = example_metrics and out = "''out.pdf''"
            and titulo = "''Informe''" and fn = "''Julio''" and tv = 1234567, OF m n s]
  obtain q where q:
    "q \<in> set (''resources/cover.jpg'' # [''a.png'', ''missing.png'', ''b.png''])"
    "example_files q = None"
    "build_pdf example_metrics example_files ''out.pdf'' ''Informe'' ''Julio'' 1234567
       (Some [''a.png'', ''missing.png'', ''b.png'']) = Inl (IOError q)"
    by blast
  have "q = ''missing.png''"
    using q(1,2) by (auto simp add: example_files_def)
  then have b: "build_pdf example_metrics example_files ''out.pdf'' ''Informe'' ''Julio'' 1234567
                  (Some [''a.png'', ''missing.png'', ''b.png'']) = Inl (IOError ''missing.png'')"
    using q(3) by simp
  have s4: "sized example_files ''resources/cover.jpg''" "sized example_files ''a.png''"
    "sized example_files ''missing.png''" "sized example_files ''b.png''"
    using s by simp_all
  show ?thesis by (intro conjI m n s4 b)
qed

section \<open>What \<open>wrap\<close> claims from the frame\<close>

text \<open>
  C10, as the claim states it, fails: \<open>wrap\<close> returns whatever area it is offered, which is
  what is left of the frame and not the entire frame (offered a height of 10 it claims a
  height of 10), so an image flowable always fits where the engine reaches it. Two image
  flowables with no page break between them are placed on the same page.
\<close>

theorem shared_page_counterexample:
  "map_sum id (map images_on)
     (build example_files (doc example_metrics example_files ''Julio'' 1234567)
        [Paragraph '' '', NextPageTemplate ''BODY'', PageBreak,
         Flow_CenteredImage (init_CenteredImage ''a.png'' (Some (26 * cm)) None None False),
         Flow_CenteredImage (init_CenteredImage ''b.png'' (Some (26 * cm)) None None False)])
     = Inr [[], [''a.png'', ''b.png'']] \<and>
   returned_size (wrap example_files
                    (init_CenteredImage ''b.png'' (Some (26 * cm)) None None False) 700 10)
     = Some (700, 10)"
proof -
  have c: "0 < cm" by (rule cm_pos)
  have r: "readable example_files ''resources/cover.jpg''"
    by (simp add: readable_def example_files_def)
  obtain aw ah where av: "frame_avail frame_body = (aw, ah)"
    by (cases "frame_avail frame_body")
  have w: "returned_size (wrap example_files
                    (init_CenteredImage ''b.png'' (Some (26 * cm)) None None False) 700 10)
     = Some (700, 10)"
    using c
    by (simp add: returned_size_def wrap_def ImageReader_def example_files_def
        init_CenteredImage_def hint_size_def truthy_def fit_size_def)
  let ?st = "\<lparr>finished = [cover_page example_files ''Julio''], current = None,
            pageTemplate = body_tpl example_metrics example_files ''Julio'' 1234567,
            nextTemplate = None, page_no = 1\<rparr>"
  let ?a = "Flow_CenteredImage (init_CenteredImage ''a.png'' (Some (26 * cm)) None None False)"
  let ?b = "Flow_CenteredImage (init_CenteredImage ''b.png'' (Some (26 * cm)) None None False)"
  have fa: "example_files ''a.png'' = Some (800, 600)" "example_files ''b.png'' = Some (640, 480)"
    by (simp_all add: example_files_def)
  from wrap_draw_body [of example_files "''a.png''" 800 600 aw ah] fa
  obtain ca where wa:
    "wrap example_files (init_CenteredImage ''a.png'' (Some (26 * cm)) None None False) aw ah
       = Inr (ca, (aw, ah))"
    "draw ca = Inr (let r = 26 * cm / real 800; dw = real 800 * r; dh = real 600 * r
                    in [drawImage ''a.png'' ((aw - dw) / 2 - 1 * cm) ((ah - dh) / 2) dw dh])"
    by auto
  from wrap_draw_body [of example_files "''b.png''" 640 480 aw ah] fa
  obtain cb where wb:
    "wrap example_files (init_CenteredImage ''b.png'' (Some (26 * cm)) None None False) aw ah
       = Inr (cb, (aw, ah))"
    "draw cb = Inr (let r = 26 * cm / real 640; dw = real 640 * r; dh = real 480 * r
                    in [drawImage ''b.png'' ((aw - dw) / 2 - 1 * cm) ((ah - dh) / 2) dw dh])"
    by auto
  have ex: "\<exists>st'. build_story example_files (doc example_metrics example_files ''Julio'' 1234567)
           ?st [?a, ?b] = Inr st' \<and>
         map images_on (finished (handle_pageEnd st')) = [[], [''a.png'', ''b.png'']]"
    using av wa wb
    by (simp add: handle_pageBegin_def handle_flowable_def handle_pageEnd_def add_placed_def
        doc_def body_tpl_def Let_def images_on_def cover_page_def)
  have m: "map_sum id (map images_on)
     (build example_files (doc example_metrics example_files ''Julio'' 1234567)
        ([Paragraph '' '', NextPageTemplate ''BODY'', PageBreak] @ [?a, ?b]))
     = Inr [[], [''a.png'', ''b.png'']]"
    using ex
  proof (elim exE conjE)
    fix st'
    assume s1: "build_story example_files (doc example_metrics example_files ''Julio'' 1234567)
           ?st [?a, ?b] = Inr st'"
      and s2: "map images_on (finished (handle_pageEnd st')) = [[], [''a.png'', ''b.png'']]"
    have "build example_files (doc example_metrics example_files ''Julio'' 1234567)
          ([Paragraph '' '', NextPageTemplate ''BODY'', PageBreak] @ [?a, ?b])
        = Inr (finished (handle_pageEnd st'))"
      unfolding build_def
      by (simp only: doc_def BaseDocTemplate.simps list.case
            story_prefix_run [OF r, unfolded doc_def] s1 [unfolded doc_def] bind_err_simps)
    then show ?thesis using s2 by simp
  qed
  show ?thesis using m w by simp
qed

text \<open>
  C10, amended: whenever \<open>wrap\<close> returns, the size it returns is exactly the available
  width and height it was offered, whatever draw size it stored, and it does return for
  every readable image of positive pixel size, unless the fit flag is set together with a
  scale factor of zero. In the document that \<open>build_pdf\<close> produces from readable files every
  image flowable is the only flowable on its page, by the page breaks that \<open>build_pdf\<close>
  puts between the images.
\<close>

theorem wrap_returns_available_area:
  "(\<forall>ci' sz. wrap fs ci aw ah = Inr (ci', sz) \<longrightarrow> sz = (aw, ah)) \<and>
   (fs (path ci) = Some (iw, ih) \<and> 0 < iw \<and> 0 < ih \<and> (fit ci \<longrightarrow> scale ci \<noteq> Some 0)
      \<longrightarrow> (\<exists>ci'. wrap fs ci aw ah = Inr (ci', (aw, ah)))) \<and>
   (readable fs ''resources/cover.jpg'' \<and> (\<forall>p \<in> set imgs. readable fs p)
      \<longrightarrow> (\<exists>pages. build_pdf sw fs out titulo fn tv (Some imgs) = Inr pages \<and>
             length pages = length imgs + 1 \<and>
             (\<forall>i < length imgs.
                (\<exists>ops. content (pages ! (i + 1)) = [Placed_Image ops]) \<and>
                images_on (pages ! (i + 1)) = [imgs ! i])))"
proof (intro conjI)
  show "\<forall>ci' sz. wrap fs ci aw ah = Inr (ci', sz) \<longrightarrow> sz = (aw, ah)"
    by (auto simp add: wrap_def bind_err_def split: sum.splits prod.splits)
next
  show "fs (path ci) = Some (iw, ih) \<and> 0 < iw \<and> 0 < ih \<and> (fit ci \<longrightarrow> scale ci \<noteq> Some 0)
      \<longrightarrow> (\<exists>ci'. wrap fs ci aw ah = Inr (ci', (aw, ah)))"
    by (auto simp add: wrap_def ImageReader_Some hint_size_def fit_size_def truthy_def Let_def
        min_def split: option.splits)
next
  show "readable fs ''resources/cover.jpg'' \<and> (\<forall>p \<in> set imgs. readable fs p)
      \<longrightarrow> (\<exists>pages. build_pdf sw fs out titulo fn tv (Some imgs) = Inr pages \<and>
             length pages = length imgs + 1 \<and>
             (\<forall>i < length imgs.
                (\<exists>ops. content (pages ! (i + 1)) = [Placed_Image ops]) \<and>
                images_on (pages ! (i + 1)) = [imgs ! i]))"
  proof (intro impI, elim conjE)
    assume r: "readable fs ''resources/cover.jpg''" and rs: "\<forall>p \<in> set imgs. readable fs p"
    let ?pages = "cover_page fs fn # body_pages sw fs fn tv 2 imgs"
    have b: "build_pdf sw fs out titulo fn tv (Some imgs) = Inr ?pages"
      using r rs by (rule build_pdf_pages)
    have l: "length ?pages = length imgs + 1" by (simp add: body_pages_length)
    have a: "\<forall>i < length imgs.
                (\<exists>ops. content (?pages ! (i + 1)) = [Placed_Image ops]) \<and>
                images_on (?pages ! (i + 1)) = [imgs ! i]"
    proof (intro allI impI)
      fix i
      assume that: "i < length imgs"
      have p: "?pages ! (i + 1) = body_page sw fs fn tv (2 + i) (imgs ! i)"
        using that by (simp add: body_pages_nth)
      have "readable fs (imgs ! i)" using that rs by simp
      then have im: "images_on (?pages ! (i + 1)) = [imgs ! i]"
        unfolding p by (rule images_on_body_page)
      have "content (?pages ! (i + 1)) = [Placed_Image (body_image fs (imgs ! i))]"
        unfolding p by (simp add: body_page_def)
      then have "\<exists>ops. content (?pages ! (i + 1)) = [Placed_Image ops]" by (rule exI)
      then show "(\<exists>ops. content (?pages ! (i + 1)) = [Placed_Image ops]) \<and>
                images_on (?pages ! (i + 1)) = [imgs ! i]"
        using im by (rule conjI)
    qed
    show "\<exists>pages. build_pdf sw fs out titulo fn tv (Some imgs) = Inr pages \<and>
             length pages = length imgs + 1 \<and>
             (\<forall>i < length imgs.
                (\<exists>ops. content (pages ! (i + 1)) = [Placed_Image ops]) \<and>
                images_on (pages ! (i + 1)) = [imgs ! i])"
      by (rule exI [of _ "?pages"]) (intro conjI b l a)
  qed
qed

theorem wrap_returns_available_area_witness:
  "example_files ''b.png'' = Some (640, 480) \<and>
   (\<exists>ci'. wrap example_files (init_CenteredImage ''b.png'' (Some 320) None None True) 1000 700
             = Inr (ci', (1000, 700)) \<and>
           stored_size (Inr (ci', (1000, 700))) = Some (320, 240)) \<and>
   readable example_files ''resources/cover.jpg'' \<and>
   readable example_files ''a.png'' \<and> readable example_files ''b.png'' \<and>
   (\<exists>pages. build_pdf example_metrics example_files ''out.pdf'' ''Informe'' ''Julio'' 1234567
               (Some [''a.png'', ''b.png'']) = Inr pages \<and>
            images_on (pages ! 1) = [''a.png''] \<and> images_on (pages ! 2) = [''b.png''])"
proof -
  let ?ci = "init_CenteredImage ''b.png'' (Some 320) None None True"
  note t = wrap_returns_available_area
             [where fs = example_files and ci = ?ci and aw = 1000 and ah = 700
                and iw = 640 and ih = 480 and imgs = "[''a.png'', ''b.png'']"
                and sw = example_metrics and out = "''out.pdf''" and titulo = "''Informe''"
                and fn = "''Julio''" and tv = 1234567]
  have e: "example_files ''b.png'' = Some (640, 480)" by (simp add: example_files_def)
  have f: "example_files (path ?ci) = Some (640, 480)"
    by (simp add: example_files_def init_CenteredImage_def)
  have s: "fit ?ci \<longrightarrow> scale ?ci \<noteq> Some 0" by (simp add: init_CenteredImage_def)
  have "\<exists>ci'. wrap example_files ?ci 1000 700 = Inr (ci', (1000, 700))"
    using t f s by simp
  then obtain ci' where w: "wrap example_files ?ci 1000 700 = Inr (ci', (1000, 700))" ..
  have "stored_size (wrap example_files ?ci 1000 700) = Some (320, 240)"
    by (simp add: stored_size_def wrap_def ImageReader_def example_files_def
        init_CenteredImage_def hint_size_def truthy_def fit_size_def rfit_def)
  then have "stored_size (Inr (ci', (1000, 700))) = Some (320, 240)" by (simp only: w)
  then have a: "\<exists>ci'. wrap example_files ?ci 1000 700 = Inr (ci', (1000, 700)) \<and>
           stored_size (Inr (ci', (1000, 700))) = Some (320, 240)"
    using w by (intro exI conjI)
  have r1: "readable example_files ''resources/cover.jpg''"
    "readable example_files ''a.png''" "readable example_files ''b.png''"
    by (simp_all add: readable_def example_files_def)
  have r2: "\<forall>p \<in> set [''a.png'', ''b.png'']. readable example_files p"
    using r1 by simp
  have "\<exists>pages. build_pdf example_metrics example_files ''out.pdf'' ''Informe'' ''Julio'' 1234567
               (Some [''a.png'', ''b.png'']) = Inr pages \<and>
             length pages = length [''a.png'', ''b.png''] + 1 \<and>
             (\<forall>i < length [''a.png'', ''b.png''].
                (\<exists>ops. content (pages ! (i + 1)) = [Placed_Image ops]) \<and>
                images_on (pages ! (i + 1)) = [[''a.png'', ''b.png''] ! i])"
    using t r1(1) r2 by blast
  then obtain pages where p:
    "build_pdf example_metrics example_files ''out.pdf'' ''Informe'' ''Julio'' 1234567
               (Some [''a.png'', ''b.png'']) = Inr pages"
    "\<forall>i < length [''a.png'', ''b.png''].
                (\<exists>ops. content (pages ! (i + 1)) = [Placed_Image ops]) \<and>
                images_on (pages ! (i + 1)) = [[''a.png'', ''b.png''] ! i]"
    by (elim exE conjE)
  have "images_on (pages ! (0 + 1)) = [[''a.png'', ''b.png''] ! 0]" using p(2) by simp
  then have i1: "images_on (pages ! 1) = [''a.png'']" by simp
  have "images_on (pages ! (1 + 1)) = [[''a.png'', ''b.png''] ! 1]" using p(2) by simp
  then have i2: "images_on (pages ! 2) = [''b.png'']" by (simp add: numeral_2_eq_2)
  have b: "\<exists>pages. build_pdf example_metrics example_files ''out.pdf'' ''Informe'' ''Julio''
               1234567 (Some [''a.png'', ''b.png'']) = Inr pages \<and>
            images_on (pages ! 1) = [''a.png''] \<and> images_on (pages ! 2) = [''b.png'']"
    by (rule exI [of _ pages]) (intro conjI p(1) i1 i2)
  show ?thesis by (intro conjI e a r1 b)
qed

end
